theory Spec2Isabelle
  imports Main "HOL-Library.AList"
begin

section \<open>The report store of Phenomena: data\<close>

text \<open>
  The data-access layer (db/index.js) talks to a PostgreSQL database through one shared
  \<^verbatim>\<open>client\<close>. Every function of the layer is a short sequence of
  \<^verbatim>\<open>client.query\<close> calls with some checks between them. The model keeps the
  two tables as lists of typed rows (in insertion order), passes the state of the database
  through every function, and returns a thrown error as a value.

  Points in time are integers: milliseconds since the epoch, the scale of
  \<^verbatim>\<open>Date.now()\<close> and of the value of a \<^verbatim>\<open>Date\<close>.
\<close>

type_synonym time = int

text \<open>
  \<^verbatim>\<open>Date.parse(report.expirationDate)\<close>: the driver hands the timestamp of
  the row over as a \<^verbatim>\<open>Date\<close>, \<^verbatim>\<open>Date.parse\<close> turns its
  argument into a string first, and the string of a \<^verbatim>\<open>Date\<close> ends at the
  seconds. What is parsed back is the point in time cut down to its whole second.
\<close>

definition Date_parse :: "time \<Rightarrow> time" where
  "Date_parse t = (t div 1000) * 1000"

text \<open>A row of table \<^verbatim>\<open>reports\<close> and a row of table \<^verbatim>\<open>comments\<close>,
  with the columns that the statements and the functions of the layer name. The field
  \<^verbatim>\<open>id\<close> of either table is written with a suffix. The creation timestamp
  that the schema may keep for a comment is left out: no function reads or writes it.\<close>

record report =
  id_report :: int
  title :: string
  location :: string
  description :: string
  password :: string
  isOpen :: bool
  expirationDate :: time

record comment =
  id_comment :: int
  reportId :: int
  content :: string

text \<open>
  The objects the functions hand back are JavaScript objects: the code adds properties to
  a fetched row (\<^verbatim>\<open>report.comments = ...\<close>) and deletes one
  (\<^verbatim>\<open>delete report.password\<close>). An object is an association list from
  property names to values; a property that is absent reads as \<^verbatim>\<open>undefined\<close>,
  which is \<open>None\<close> of \<open>map_of\<close>.
\<close>

datatype jsval = Num int | Str string | Bool bool | Date time | Arr "comment list"

type_synonym obj = "(string \<times> jsval) list"

definition row_of_report :: "report \<Rightarrow> obj" where
  "row_of_report r =
     [(''id'', Num (id_report r)),
      (''title'', Str (title r)),
      (''location'', Str (location r)),
      (''description'', Str (description r)),
      (''password'', Str (password r)),
      (''isOpen'', Bool (isOpen r)),
      (''expirationDate'', Date (expirationDate r))]"

text \<open>\<open>Error msg\<close> is \<^verbatim>\<open>throw new Error(msg)\<close> of the layer itself;
  \<open>StoreFailure\<close> is a rejection that comes out of \<^verbatim>\<open>client.query\<close>
  and that every function rethrows unchanged.\<close>

datatype error = Error string | StoreFailure string

text \<open>The statements the layer sends, one constructor for each SQL text of the source,
  with the values bound to its placeholders.\<close>

datatype stmt =
    SelectOpenReports
  | SelectCommentsIn string "int list"
  | InsertReport string string string string
  | SelectReport int
  | UpdateIsOpenFalse int
  | InsertComment int string
  | UpdateExpirationDate int

text \<open>The database behind the client: both tables, the two \<^verbatim>\<open>id\<close> sequences,
  and the log of the statements received so far (the latest one last).\<close>

record client =
  reports :: "report list"
  comments :: "comment list"
  report_seq :: int
  comment_seq :: int
  issued :: "stmt list"

definition empty_client :: client where
  "empty_client = \<lparr>reports = [], comments = [], report_seq = 1, comment_seq = 1, issued = []\<rparr>"

definition sent :: "stmt \<Rightarrow> client \<Rightarrow> client" where
  "sent q st = st\<lparr>issued := issued st @ [q]\<rparr>"

text \<open>\<^verbatim>\<open>interval '1 day'\<close>, in milliseconds.\<close>

definition one_day :: time where
  "one_day = 86400000"

section \<open>The statements\<close>

text \<open>\<^verbatim>\<open>SELECT * FROM reports WHERE "isOpen" = true\<close>\<close>

definition query_open_reports :: "client \<Rightarrow> report list \<times> client" where
  "query_open_reports st = (filter isOpen (reports st), sent SelectOpenReports st)"

text \<open>
  The list of placeholders that getOpenReports writes between the parentheses of
  \<^verbatim>\<open>IN (...)\<close>:
  \<^verbatim>\<open>reportIds.map((_, i) => `$${i + 1}`).join(',')\<close>.
\<close>

function digits :: "nat \<Rightarrow> string" where
  "digits n =
     (if n < 10 then [char_of (48 + n)] else digits (n div 10) @ [char_of (48 + n mod 10)])"
  by pat_completeness auto
termination
  by (relation "measure (\<lambda>n. n)") auto

fun join :: "string \<Rightarrow> string list \<Rightarrow> string" where
  "join sep [] = []"
| "join sep [x] = x"
| "join sep (x # y # ys) = x @ sep @ join sep (y # ys)"

definition placeholders :: "int list \<Rightarrow> string" where
  "placeholders reportIds =
     join '','' (map (\<lambda>i. ''$'' @ digits (i + 1)) [0..<length reportIds])"

text \<open>
  \<^verbatim>\<open>SELECT * FROM comments WHERE "reportId" IN (...)\<close> with the text
  \<open>inList\<close> between the parentheses and the values \<open>ids\<close> bound to its
  placeholders \<^verbatim>\<open>$1\<close>, ..., \<^verbatim>\<open>$n\<close>. With nothing between the
  parentheses the text ends in \<^verbatim>\<open>IN ()\<close>, which PostgreSQL refuses to
  parse: the query is rejected.
\<close>

definition query_comments_in ::
  "string \<Rightarrow> int list \<Rightarrow> client \<Rightarrow> (error + comment list) \<times> client" where
  "query_comments_in inList ids st =
     (if inList = [] then Inl (StoreFailure ''syntax error at or near )'')
      else Inr (filter (\<lambda>c. reportId c \<in> set ids) (comments st)),
      sent (SelectCommentsIn inList ids) st)"

text \<open>
  Modelled from the spec: the schema of the two tables is not part of the sources. The
  spec gives \<^verbatim>\<open>reports(id, title, location, description, password, "isOpen" boolean
  default true, "expirationDate" timestamp default now()+1day)\<close>, the id assigned by
  the store. \<open>ts\<close> is the database's clock when the statement runs.

  \<^verbatim>\<open>INSERT INTO reports (title, location, description, password)
  VALUES ($1, $2, $3, $4) RETURNING *\<close>
\<close>

definition query_insert_report ::
  "time \<Rightarrow> string \<Rightarrow> string \<Rightarrow> string \<Rightarrow> string \<Rightarrow> client \<Rightarrow> report \<times> client" where
  "query_insert_report ts t l d p st =
     (let r = \<lparr>id_report = report_seq st, title = t, location = l, description = d,
                password = p, isOpen = True, expirationDate = ts + one_day\<rparr>
      in (r, sent (InsertReport t l d p)
               (st\<lparr>reports := reports st @ [r], report_seq := report_seq st + 1\<rparr>)))"

text \<open>\<^verbatim>\<open>SELECT * FROM reports WHERE id = $1\<close>\<close>

definition query_report :: "int \<Rightarrow> client \<Rightarrow> report list \<times> client" where
  "query_report rid st =
     (filter (\<lambda>r. id_report r = rid) (reports st), sent (SelectReport rid) st)"

text \<open>\<^verbatim>\<open>UPDATE reports SET "isOpen" = false WHERE id = $1\<close>; the first
  component is \<^verbatim>\<open>rowCount\<close>, the number of rows the statement matched.\<close>

definition query_close :: "int \<Rightarrow> client \<Rightarrow> nat \<times> client" where
  "query_close rid st =
     (length (filter (\<lambda>r. id_report r = rid) (reports st)),
      sent (UpdateIsOpenFalse rid)
        (st\<lparr>reports := map (\<lambda>r. if id_report r = rid then r\<lparr>isOpen := False\<rparr> else r)
                           (reports st)\<rparr>))"

text \<open>\<^verbatim>\<open>INSERT INTO comments ("reportId", content) VALUES ($1, $2) RETURNING *\<close>;
  the id comes from the table's sequence.\<close>

definition query_insert_comment :: "int \<Rightarrow> string \<Rightarrow> client \<Rightarrow> comment \<times> client" where
  "query_insert_comment rid txt st =
     (let c = \<lparr>id_comment = comment_seq st, reportId = rid, content = txt\<rparr>
      in (c, sent (InsertComment rid txt)
               (st\<lparr>comments := comments st @ [c], comment_seq := comment_seq st + 1\<rparr>)))"

text \<open>\<^verbatim>\<open>UPDATE reports SET "expirationDate" = CURRENT_TIMESTAMP + interval '1 day'
  WHERE id = $1\<close>, with \<open>ts\<close> the value of \<^verbatim>\<open>CURRENT_TIMESTAMP\<close>.\<close>

definition query_update_expiration :: "time \<Rightarrow> int \<Rightarrow> client \<Rightarrow> client" where
  "query_update_expiration ts rid st =
     sent (UpdateExpirationDate rid)
       (st\<lparr>reports :=
              map (\<lambda>r. if id_report r = rid then r\<lparr>expirationDate := ts + one_day\<rparr> else r)
                  (reports st)\<rparr>)"

section \<open>The functions of the layer\<close>

subsection \<open>getOpenReports\<close>

text \<open>
  The body of \<^verbatim>\<open>commentsResult.rows.forEach\<close>: the group of the comment's
  report is created when the comment is the first of its report, and the comment is
  pushed at its end.
\<close>

definition group_comment :: "(int \<rightharpoonup> comment list) \<Rightarrow> comment \<Rightarrow> (int \<rightharpoonup> comment list)" where
  "group_comment commentsByReportId c =
     (case commentsByReportId (reportId c) of
        None \<Rightarrow> commentsByReportId(reportId c \<mapsto> [] @ [c])
      | Some cs \<Rightarrow> commentsByReportId(reportId c \<mapsto> cs @ [c]))"

text \<open>The body of \<^verbatim>\<open>reports.forEach\<close>: the three changes made to a fetched
  row, in the order of the source. \<open>now\<close> is \<^verbatim>\<open>new Date()\<close>; the
  source reads the clock once for each report, the model once for the call.\<close>

definition build_report :: "time \<Rightarrow> (int \<rightharpoonup> comment list) \<Rightarrow> report \<Rightarrow> obj" where
  "build_report now commentsByReportId r =
     AList.delete ''password''
       (AList.update ''isExpired'' (Bool (Date_parse (expirationDate r) < now))
          (AList.update ''comments''
             (Arr (case commentsByReportId (id_report r) of None \<Rightarrow> [] | Some cs \<Rightarrow> cs))
             (row_of_report r)))"

definition getOpenReports :: "time \<Rightarrow> client \<Rightarrow> (error + obj list) \<times> client" where
  "getOpenReports now st =
     (let (rows, st1) = query_open_reports st;
          reportIds = map id_report rows;
          (commentsResult, st2) = query_comments_in (placeholders reportIds) reportIds st1
      in case commentsResult of
           Inl e \<Rightarrow> (Inl e, st2)
         | Inr crows \<Rightarrow>
             (let commentsByReportId = foldl group_comment Map.empty crows
              in (Inr (map (build_report now commentsByReportId) rows), st2)))"

subsection \<open>createReport\<close>

definition createReport ::
  "time \<Rightarrow> string \<Rightarrow> string \<Rightarrow> string \<Rightarrow> string \<Rightarrow> client \<Rightarrow> (error + obj) \<times> client" where
  "createReport ts t l d p st =
     (let (newReport, st1) = query_insert_report ts t l d p st
      in (Inr (AList.delete ''password'' (row_of_report newReport)), st1))"

subsection \<open>The internal accessor\<close>

text \<open>The source's \<^verbatim>\<open>_getReport\<close>: the first row of the result, or
  \<^verbatim>\<open>undefined\<close> (here \<open>None\<close>) when the result has no row.\<close>

definition getReport :: "int \<Rightarrow> client \<Rightarrow> report option \<times> client" where
  "getReport rid st =
     (let (rows, st1) = query_report rid st
      in (case rows of [] \<Rightarrow> None | r # _ \<Rightarrow> Some r, st1))"

subsection \<open>closeReport\<close>

text \<open>
  \<^verbatim>\<open>closeReport\<close> awaits two statements. While it waits for the row it has
  asked for, statements of other requests may reach the database: \<open>other\<close> is their
  effect, and the identity in an execution where nothing runs in between.
\<close>

definition closeReport ::
  "(client \<Rightarrow> client) \<Rightarrow> int \<Rightarrow> string \<Rightarrow> client \<Rightarrow> (error + obj) \<times> client" where
  "closeReport other rid pw st =
     (let (found, st1) = getReport rid st
      in case found of
           None \<Rightarrow> (Inl (Error ''Report does not exist with that id''), st1)
         | Some r \<Rightarrow>
             if password r \<noteq> pw
             then (Inl (Error ''Password incorrect for this report, please try again''), st1)
             else if \<not> isOpen r
             then (Inl (Error ''This report has already been closed''), st1)
             else (let (rowCount, st2) = query_close rid (other st1)
                   in if rowCount = 0 then (Inl (Error ''Report not updated''), st2)
                      else (Inr [(''message'', Str ''Report successfully closed!'')], st2)))"

subsection \<open>createReportComment\<close>

text \<open>\<open>now\<close> is \<^verbatim>\<open>Date.now()\<close> at the third check, \<open>ts\<close> the database's
  \<^verbatim>\<open>CURRENT_TIMESTAMP\<close> when the update runs.\<close>

definition createReportComment ::
  "time \<Rightarrow> time \<Rightarrow> int \<Rightarrow> string \<Rightarrow> client \<Rightarrow> (error + comment) \<times> client" where
  "createReportComment now ts rid txt st =
     (let (found, st1) = getReport rid st
      in case found of
           None \<Rightarrow> (Inl (Error ''That report does not exist, no comment has been made''), st1)
         | Some r \<Rightarrow>
             if \<not> isOpen r
             then (Inl (Error ''That report has been closed, no comment has been made''), st1)
             else if Date_parse (expirationDate r) < now
             then (Inl (Error
                    ''The discussion time on this report has expired, no comment has been made''),
                   st1)
             else (let (newComment, st2) = query_insert_comment rid txt st1;
                       st3 = query_update_expiration ts rid st2
                   in (Inr newComment, st3)))"

section \<open>Sequences of requests\<close>

text \<open>A request to the layer, and the database after it has been served with nothing
  else running in between. \<open>ts\<close> is the database's clock while it is served.\<close>

datatype request =
    GetOpenReports time
  | CreateReport string string string string
  | CloseReport int string
  | CreateReportComment time int string

fun perform :: "time \<Rightarrow> request \<Rightarrow> client \<Rightarrow> client" where
  "perform ts (GetOpenReports now) st = snd (getOpenReports now st)"
| "perform ts (CreateReport t l d p) st = snd (createReport ts t l d p st)"
| "perform ts (CloseReport rid pw) st = snd (closeReport (\<lambda>s. s) rid pw st)"
| "perform ts (CreateReportComment now rid txt) st = snd (createReportComment now ts rid txt st)"

definition run :: "(time \<times> request) list \<Rightarrow> client \<Rightarrow> client" where
  "run es st = foldl (\<lambda>s (ts, req). perform ts req s) st es"

text \<open>The database's clock does not run backwards.\<close>

definition chronological :: "(time \<times> request) list \<Rightarrow> bool" where
  "chronological es = sorted (map fst es)"

section \<open>Example databases\<close>

definition closed_only :: client where
  "closed_only =
     \<lparr>reports = [\<lparr>id_report = 1, title = ''Leak'', location = ''5th Ave'',
                  description = ''Gas smell'', password = ''p1'', isOpen = False,
                  expirationDate = 5000\<rparr>],
      comments = [\<lparr>id_comment = 1, reportId = 1, content = ''confirmed''\<rparr>],
      report_seq = 2, comment_seq = 2, issued = []\<rparr>"

definition board :: client where
  "board =
     \<lparr>reports =
        [\<lparr>id_report = 1, title = ''Leak'', location = ''5th Ave'', description = ''Gas smell'',
          password = ''p1'', isOpen = True, expirationDate = 5000\<rparr>,
         \<lparr>id_report = 2, title = ''Lights'', location = ''Desert'', description = ''In the sky'',
          password = ''p2'', isOpen = False, expirationDate = 9000\<rparr>,
         \<lparr>id_report = 3, title = ''Hum'', location = ''Taos'', description = ''Low noise'',
          password = ''p3'', isOpen = True, expirationDate = 7000\<rparr>],
      comments =
        [\<lparr>id_comment = 1, reportId = 1, content = ''confirmed''\<rparr>,
         \<lparr>id_comment = 2, reportId = 2, content = ''seen it too''\<rparr>,
         \<lparr>id_comment = 3, reportId = 1, content = ''still there''\<rparr>],
      report_seq = 4, comment_seq = 4, issued = []\<rparr>"

definition half_second :: client where
  "half_second =
     \<lparr>reports = [\<lparr>id_report = 1, title = ''Leak'', location = ''5th Ave'',
                  description = ''Gas smell'', password = ''p1'', isOpen = True,
                  expirationDate = 7500\<rparr>],
      comments = [], report_seq = 2, comment_seq = 1, issued = []\<rparr>"

section \<open>Properties of getOpenReports\<close>

lemma Date_parse_le: "Date_parse t \<le> t"
  unfolding Date_parse_def by presburger



lemma getOpenReports_issued:
  "issued (snd (getOpenReports now st)) =
     issued st @
       [SelectOpenReports,
        SelectCommentsIn (placeholders (map id_report (filter isOpen (reports st))))
          (map id_report (filter isOpen (reports st)))]"
  by (simp add: getOpenReports_def query_open_reports_def query_comments_in_def sent_def
      Let_def split: sum.splits)


text \<open>
  C1. With no open report, getOpenReports does not skip the comment query and does not
  return an empty sequence. On the database without any report, and on one whose only
  report is closed, the function sends the comment query all the same, with nothing
  between the parentheses of \<^verbatim>\<open>IN ()\<close> and no value bound; the database
  rejects it, and the call fails with that rejection.
\<close>

theorem getOpenReports_no_open_report:
  "getOpenReports 0 empty_client =
     (Inl (StoreFailure ''syntax error at or near )''),
      empty_client\<lparr>issued := [SelectOpenReports, SelectCommentsIn [] []]\<rparr>) \<and>
   getOpenReports 9000 closed_only =
     (Inl (StoreFailure ''syntax error at or near )''),
      closed_only\<lparr>issued := [SelectOpenReports, SelectCommentsIn [] []]\<rparr>)"
  by (simp add: getOpenReports_def query_open_reports_def query_comments_in_def sent_def
      empty_client_def closed_only_def placeholders_def)










section \<open>Properties of closeReport\<close>

lemma sent_simps:
  "reports (sent q st) = reports st"
  "comments (sent q st) = comments st"
  "report_seq (sent q st) = report_seq st"
  "comment_seq (sent q st) = comment_seq st"
  "issued (sent q st) = issued st @ [q]"
  by (simp_all add: sent_def)

lemma getReport_fst:
  "fst (getReport rid st) =
     (case filter (\<lambda>r. id_report r = rid) (reports st) of [] \<Rightarrow> None | r # _ \<Rightarrow> Some r)"
  by (simp add: getReport_def query_report_def)

lemma getReport_snd: "snd (getReport rid st) = sent (SelectReport rid) st"
  by (simp add: getReport_def query_report_def)

lemma getReport_None_iff:
  "(fst (getReport rid st) = None) = (rid \<notin> id_report ` set (reports st))"
proof -
  have "(fst (getReport rid st) = None) = (filter (\<lambda>r. id_report r = rid) (reports st) = [])"
    by (simp add: getReport_fst split: list.splits)
  also have "\<dots> = (rid \<notin> id_report ` set (reports st))"
    by (auto simp: filter_empty_conv)
  finally show ?thesis .
qed

lemma getReport_Some_row:
  "fst (getReport rid st) = Some r \<Longrightarrow> r \<in> set (reports st) \<and> id_report r = rid"
proof -
  assume a: "fst (getReport rid st) = Some r"
  then obtain rs where "filter (\<lambda>r. id_report r = rid) (reports st) = r # rs"
    by (auto simp: getReport_fst split: list.splits)
  then have "r \<in> set (filter (\<lambda>r. id_report r = rid) (reports st))"
    by simp
  then show ?thesis by simp
qed

lemma closeReport_cases:
  "closeReport other rid pw st =
     (case fst (getReport rid st) of
        None \<Rightarrow> (Inl (Error ''Report does not exist with that id''), sent (SelectReport rid) st)
      | Some r \<Rightarrow>
          if password r \<noteq> pw
          then (Inl (Error ''Password incorrect for this report, please try again''),
                sent (SelectReport rid) st)
          else if \<not> isOpen r
          then (Inl (Error ''This report has already been closed''), sent (SelectReport rid) st)
          else (if fst (query_close rid (other (sent (SelectReport rid) st))) = 0
                then Inl (Error ''Report not updated'')
                else Inr [(''message'', Str ''Report successfully closed!'')],
                snd (query_close rid (other (sent (SelectReport rid) st)))))"
  by (simp add: closeReport_def case_prod_beta getReport_snd Let_def split: option.splits)

lemma closeReport_absent:
  "fst (getReport rid st) = None \<Longrightarrow>
   closeReport other rid pw st =
     (Inl (Error ''Report does not exist with that id''), sent (SelectReport rid) st)"
  by (simp add: closeReport_cases)

lemma closeReport_password:
  "fst (getReport rid st) = Some r \<Longrightarrow> password r \<noteq> pw \<Longrightarrow>
   closeReport other rid pw st =
     (Inl (Error ''Password incorrect for this report, please try again''),
      sent (SelectReport rid) st)"
  by (simp add: closeReport_cases)

lemma closeReport_closed:
  "fst (getReport rid st) = Some r \<Longrightarrow> password r = pw \<Longrightarrow> \<not> isOpen r \<Longrightarrow>
   closeReport other rid pw st =
     (Inl (Error ''This report has already been closed''), sent (SelectReport rid) st)"
  by (simp add: closeReport_cases)

lemma closeReport_update:
  "fst (getReport rid st) = Some r \<Longrightarrow> password r = pw \<Longrightarrow> isOpen r \<Longrightarrow>
   closeReport other rid pw st =
     (if fst (query_close rid (other (sent (SelectReport rid) st))) = 0
      then Inl (Error ''Report not updated'')
      else Inr [(''message'', Str ''Report successfully closed!'')],
      snd (query_close rid (other (sent (SelectReport rid) st))))"
  by (simp add: closeReport_cases)

text \<open>
  C3. closeReport makes three checks in this order, and each failure ends the call with its
  own error, after the row has been read and nothing else: no report has the id; else the
  password given is not the stored one (whether or not the report is open); else the report
  is not open. When all three pass, the call ends with none of these errors.
\<close>

theorem closeReport_guards:
  "(rid \<notin> id_report ` set (reports st) \<longrightarrow>
      closeReport other rid pw st =
        (Inl (Error ''Report does not exist with that id''), sent (SelectReport rid) st)) \<and>
   (\<forall>r. fst (getReport rid st) = Some r \<and> password r \<noteq> pw \<longrightarrow>
      closeReport other rid pw st =
        (Inl (Error ''Password incorrect for this report, please try again''),
         sent (SelectReport rid) st)) \<and>
   (\<forall>r. fst (getReport rid st) = Some r \<and> password r = pw \<and> \<not> isOpen r \<longrightarrow>
      closeReport other rid pw st =
        (Inl (Error ''This report has already been closed''), sent (SelectReport rid) st)) \<and>
   (\<forall>r. fst (getReport rid st) = Some r \<and> password r = pw \<and> isOpen r \<longrightarrow>
      fst (closeReport other rid pw st) \<noteq> Inl (Error ''Report does not exist with that id'') \<and>
      fst (closeReport other rid pw st) \<noteq>
        Inl (Error ''Password incorrect for this report, please try again'') \<and>
      fst (closeReport other rid pw st) \<noteq> Inl (Error ''This report has already been closed''))"
proof (intro conjI allI impI)
  assume "rid \<notin> id_report ` set (reports st)"
  then have "fst (getReport rid st) = None"
    by (simp add: getReport_None_iff)
  then show "closeReport other rid pw st =
        (Inl (Error ''Report does not exist with that id''), sent (SelectReport rid) st)"
    by (rule closeReport_absent)
next
  fix r
  assume "fst (getReport rid st) = Some r \<and> password r \<noteq> pw"
  then show "closeReport other rid pw st =
        (Inl (Error ''Password incorrect for this report, please try again''),
         sent (SelectReport rid) st)"
    by (simp add: closeReport_password)
next
  fix r
  assume "fst (getReport rid st) = Some r \<and> password r = pw \<and> \<not> isOpen r"
  then show "closeReport other rid pw st =
        (Inl (Error ''This report has already been closed''), sent (SelectReport rid) st)"
    by (simp add: closeReport_closed)
next
  fix r
  assume a: "fst (getReport rid st) = Some r \<and> password r = pw \<and> isOpen r"
  show "fst (closeReport other rid pw st) \<noteq> Inl (Error ''Report does not exist with that id'')"
    using a by (simp add: closeReport_update)
  show "fst (closeReport other rid pw st) \<noteq>
        Inl (Error ''Password incorrect for this report, please try again'')"
    using a by (simp add: closeReport_update)
  show "fst (closeReport other rid pw st) \<noteq> Inl (Error ''This report has already been closed'')"
    using a by (simp add: closeReport_update)
qed

lemma board_rows:
  "fst (getReport 1 board) =
     Some \<lparr>id_report = 1, title = ''Leak'', location = ''5th Ave'', description = ''Gas smell'',
           password = ''p1'', isOpen = True, expirationDate = 5000\<rparr>"
  "fst (getReport 2 board) =
     Some \<lparr>id_report = 2, title = ''Lights'', location = ''Desert'',
           description = ''In the sky'', password = ''p2'', isOpen = False,
           expirationDate = 9000\<rparr>"
  "fst (getReport 3 board) =
     Some \<lparr>id_report = 3, title = ''Hum'', location = ''Taos'', description = ''Low noise'',
           password = ''p3'', isOpen = True, expirationDate = 7000\<rparr>"
  "fst (getReport 7 board) = None"
  by (simp_all add: getReport_fst board_def)

theorem closeReport_guards_witness:
  "fst (closeReport (\<lambda>s. s) 7 ''anything'' board) =
     Inl (Error ''Report does not exist with that id'') \<and>
   fst (closeReport (\<lambda>s. s) 2 ''p1'' board) =
     Inl (Error ''Password incorrect for this report, please try again'') \<and>
   fst (closeReport (\<lambda>s. s) 2 ''p2'' board) =
     Inl (Error ''This report has already been closed'') \<and>
   fst (closeReport (\<lambda>s. s) 1 ''p1'' board) \<noteq>
     Inl (Error ''This report has already been closed'')"
proof -
  have absent: "7 \<notin> id_report ` set (reports board)"
    by (simp add: board_def)
  show ?thesis
    using absent
      closeReport_guards [of 7 board "\<lambda>s. s" "''anything''"]
      closeReport_guards [of 2 board "\<lambda>s. s" "''p1''"]
      closeReport_guards [of 2 board "\<lambda>s. s" "''p2''"]
      closeReport_guards [of 1 board "\<lambda>s. s" "''p1''"]
    by (simp add: board_rows)
qed

lemma query_close_rowCount:
  "fst (query_close rid st) = length (filter (\<lambda>r. id_report r = rid) (reports st))"
  by (simp add: query_close_def)

lemma query_close_reports:
  "reports (snd (query_close rid st)) =
     map (\<lambda>r. if id_report r = rid then r\<lparr>isOpen := False\<rparr> else r) (reports st)"
  by (simp add: query_close_def sent_simps)

lemma query_close_issued:
  "issued (snd (query_close rid st)) = issued st @ [UpdateIsOpenFalse rid]"
  by (simp add: query_close_def sent_simps)

lemma query_close_comments:
  "comments (snd (query_close rid st)) = comments st"
  by (simp add: query_close_def sent_simps)

lemma query_close_closed:
  "x \<in> set (reports (snd (query_close rid s))) \<Longrightarrow> id_report x = rid \<Longrightarrow> \<not> isOpen x"
proof -
  assume mem: "x \<in> set (reports (snd (query_close rid s)))" and idx: "id_report x = rid"
  from mem obtain r where x: "x = (if id_report r = rid then r\<lparr>isOpen := False\<rparr> else r)"
    unfolding query_close_reports set_map by (rule imageE)
  show ?thesis
  proof (cases "id_report r = rid")
    case True
    then show ?thesis using x by simp
  next
    case False
    then show ?thesis using x idx by simp
  qed
qed

text \<open>
  C4. When the three checks pass, closeReport sends the update that sets
  \<^verbatim>\<open>isOpen\<close> to false for the id (after whatever reached the database in the
  meantime). If the update matched no row the call fails with the error
  \<^verbatim>\<open>Report not updated\<close>; if it matched a row the call returns the object whose
  only property is the message \<^verbatim>\<open>Report successfully closed!\<close>. In both cases the
  update is the last statement sent, and no row with the id is open afterwards.
\<close>

theorem closeReport_after_guards:
  assumes "fst (getReport rid st) = Some r" and "password r = pw" and "isOpen r"
  shows "last (issued (snd (closeReport other rid pw st))) = UpdateIsOpenFalse rid \<and>
         fst (closeReport other rid pw st) =
           (if fst (query_close rid (other (snd (getReport rid st)))) = 0
            then Inl (Error ''Report not updated'')
            else Inr [(''message'', Str ''Report successfully closed!'')]) \<and>
         (\<forall>x \<in> set (reports (snd (closeReport other rid pw st))). id_report x = rid \<longrightarrow> \<not> isOpen x)"
proof -
  have eq: "closeReport other rid pw st =
     (if fst (query_close rid (other (sent (SelectReport rid) st))) = 0
      then Inl (Error ''Report not updated'')
      else Inr [(''message'', Str ''Report successfully closed!'')],
      snd (query_close rid (other (sent (SelectReport rid) st))))"
    using assms by (rule closeReport_update)
  show ?thesis
    unfolding eq by (simp add: getReport_snd query_close_issued query_close_closed)
qed

theorem closeReport_after_guards_witness:
  "fst (closeReport (\<lambda>s. s) 1 ''p1'' board) =
     Inr [(''message'', Str ''Report successfully closed!'')] \<and>
   last (issued (snd (closeReport (\<lambda>s. s) 1 ''p1'' board))) = UpdateIsOpenFalse 1 \<and>
   fst (closeReport (\<lambda>s. s\<lparr>reports := []\<rparr>) 1 ''p1'' board) = Inl (Error ''Report not updated'') \<and>
   last (issued (snd (closeReport (\<lambda>s. s\<lparr>reports := []\<rparr>) 1 ''p1'' board))) =
     UpdateIsOpenFalse 1"
proof -
  let ?r = "\<lparr>id_report = 1, title = ''Leak'', location = ''5th Ave'', description = ''Gas smell'',
             password = ''p1'', isOpen = True, expirationDate = 5000\<rparr>"
  have row: "fst (getReport 1 board) = Some ?r"
    by (rule board_rows)
  have pw: "password ?r = ''p1''" and op: "isOpen ?r"
    by simp_all
  have n1: "fst (query_close 1 (snd (getReport 1 board))) = 1"
    by (simp add: query_close_rowCount getReport_snd sent_simps board_def)
  have n0: "fst (query_close 1 ((snd (getReport 1 board))\<lparr>reports := []\<rparr>)) = 0"
    by (simp add: query_close_rowCount)
  show ?thesis
    using closeReport_after_guards [OF row pw op, of "\<lambda>s. s"]
      closeReport_after_guards [OF row pw op, of "\<lambda>s. s\<lparr>reports := []\<rparr>"]
    by (simp add: n1 n0)
qed

text \<open>
  C5. For a report that exists, closeReport with a password other than the stored one
  fails (with the password error) and leaves both tables as they were; the row of the
  report, its \<^verbatim>\<open>isOpen\<close> included, reads the same afterwards.
\<close>

theorem closeReport_wrong_password:
  assumes "fst (getReport rid st) = Some r" and "password r \<noteq> pw"
  shows "fst (closeReport other rid pw st) =
           Inl (Error ''Password incorrect for this report, please try again'') \<and>
         reports (snd (closeReport other rid pw st)) = reports st \<and>
         comments (snd (closeReport other rid pw st)) = comments st \<and>
         fst (getReport rid (snd (closeReport other rid pw st))) = Some r"
proof -
  have eq: "closeReport other rid pw st =
     (Inl (Error ''Password incorrect for this report, please try again''),
      sent (SelectReport rid) st)"
    using assms by (rule closeReport_password)
  have "fst (getReport rid (sent (SelectReport rid) st)) = fst (getReport rid st)"
    by (simp add: getReport_fst sent_simps)
  then show ?thesis
    unfolding eq using assms(1) by (simp add: sent_simps)
qed

theorem closeReport_wrong_password_witness:
  "fst (closeReport (\<lambda>s. s) 1 ''p2'' board) =
     Inl (Error ''Password incorrect for this report, please try again'') \<and>
   reports (snd (closeReport (\<lambda>s. s) 1 ''p2'' board)) = reports board \<and>
   comments (snd (closeReport (\<lambda>s. s) 1 ''p2'' board)) = comments board \<and>
   map_option isOpen (fst (getReport 1 (snd (closeReport (\<lambda>s. s) 1 ''p2'' board)))) = Some True"
proof -
  let ?r = "\<lparr>id_report = 1, title = ''Leak'', location = ''5th Ave'', description = ''Gas smell'',
             password = ''p1'', isOpen = True, expirationDate = 5000\<rparr>"
  have row: "fst (getReport 1 board) = Some ?r"
    by (rule board_rows)
  have pw: "password ?r \<noteq> ''p2''"
    by simp
  show ?thesis
    using closeReport_wrong_password [OF row pw, of "\<lambda>s. s"] by simp
qed

lemma filter_id_map:
  assumes "\<And>x. id_report (f x) = id_report x"
  shows "filter (\<lambda>r. id_report r = rid) (map f xs) = map f (filter (\<lambda>r. id_report r = rid) xs)"
  using assms by (induction xs) simp_all

lemma getReport_Some_filter:
  "(fst (getReport rid st) = Some r) =
     (\<exists>rs. filter (\<lambda>r. id_report r = rid) (reports st) = r # rs)"
  by (simp add: getReport_fst split: list.splits)

lemma getReport_mapped:
  assumes rows: "reports st' = map f (reports st) @ ys"
    and ids: "\<And>x. id_report (f x) = id_report x"
    and found: "fst (getReport rid st) = Some r"
  shows "fst (getReport rid st') = Some (f r)"
proof -
  from found obtain rs where "filter (\<lambda>r. id_report r = rid) (reports st) = r # rs"
    by (auto simp: getReport_Some_filter)
  then have "filter (\<lambda>r. id_report r = rid) (reports st') =
      f r # map f rs @ filter (\<lambda>r. id_report r = rid) ys"
    by (simp add: rows filter_id_map [of f, OF ids])
  then show ?thesis
    by (simp add: getReport_fst)
qed

lemma rowCount_found:
  assumes "fst (getReport rid st) = Some r"
  shows "fst (query_close rid (sent q st)) \<noteq> 0"
proof -
  from assms obtain rs where "filter (\<lambda>r. id_report r = rid) (reports st) = r # rs"
    by (auto simp: getReport_Some_filter)
  then show ?thesis
    by (simp add: query_close_rowCount sent_simps)
qed

lemma closeReport_alone:
  assumes "fst (getReport rid st) = Some r" and "password r = pw" and "isOpen r"
  shows "closeReport (\<lambda>s. s) rid pw st =
     (Inr [(''message'', Str ''Report successfully closed!'')],
      snd (query_close rid (sent (SelectReport rid) st)))"
  using assms rowCount_found [OF assms(1), of "SelectReport rid"]
  by (simp add: closeReport_update)

lemma getReport_closed:
  assumes "fst (getReport rid st) = Some r"
  shows "fst (getReport rid (snd (query_close rid (sent q st)))) = Some (r\<lparr>isOpen := False\<rparr>)"
proof -
  let ?f = "\<lambda>r. if id_report r = rid then r\<lparr>isOpen := False\<rparr> else r"
  have rows: "reports (snd (query_close rid (sent q st))) = map ?f (reports st) @ []"
    by (simp add: query_close_reports sent_simps)
  have ids: "id_report (?f x) = id_report x" for x
    by simp
  have "fst (getReport rid (snd (query_close rid (sent q st)))) = Some (?f r)"
    using rows ids assms by (rule getReport_mapped)
  moreover have "id_report r = rid"
    using assms by (simp add: getReport_Some_row)
  ultimately show ?thesis by simp
qed

lemma count_distinct_id:
  "distinct (map f xs) \<Longrightarrow> k \<in> f ` set xs \<Longrightarrow> length (filter (\<lambda>y. f y = k) xs) = 1"
proof (induction xs)
  case Nil
  then show ?case by simp
next
  case (Cons a xs)
  show ?case
  proof (cases "f a = k")
    case True
    then have "k \<notin> f ` set xs"
      using Cons.prems(1) by simp
    then have "filter (\<lambda>y. f y = k) xs = []"
      by (auto simp: filter_empty_conv)
    then show ?thesis using True by simp
  next
    case False
    then have "k \<in> f ` set xs"
      using Cons.prems(2) by auto
    then show ?thesis
      using Cons.IH Cons.prems(1) False by simp
  qed
qed

section \<open>Properties of createReportComment\<close>

lemma query_insert_comment_fst:
  "fst (query_insert_comment rid txt st) =
     \<lparr>id_comment = comment_seq st, reportId = rid, content = txt\<rparr>"
  by (simp add: query_insert_comment_def Let_def)

lemma query_insert_comment_snd:
  "snd (query_insert_comment rid txt st) =
     sent (InsertComment rid txt)
       (st\<lparr>comments := comments st @ [\<lparr>id_comment = comment_seq st, reportId = rid, content = txt\<rparr>],
           comment_seq := comment_seq st + 1\<rparr>)"
  by (simp add: query_insert_comment_def Let_def)

lemma createReportComment_cases:
  "createReportComment now ts rid txt st =
     (case fst (getReport rid st) of
        None \<Rightarrow> (Inl (Error ''That report does not exist, no comment has been made''),
                 sent (SelectReport rid) st)
      | Some r \<Rightarrow>
          if \<not> isOpen r
          then (Inl (Error ''That report has been closed, no comment has been made''),
                sent (SelectReport rid) st)
          else if Date_parse (expirationDate r) < now
          then (Inl (Error
                  ''The discussion time on this report has expired, no comment has been made''),
                sent (SelectReport rid) st)
          else (Inr (fst (query_insert_comment rid txt (sent (SelectReport rid) st))),
                query_update_expiration ts rid
                  (snd (query_insert_comment rid txt (sent (SelectReport rid) st)))))"
  by (simp add: createReportComment_def case_prod_beta getReport_snd Let_def
      split: option.splits)

lemma createReportComment_accepted:
  assumes "fst (getReport rid st) = Some r" and "isOpen r"
    and "\<not> Date_parse (expirationDate r) < now"
  shows "createReportComment now ts rid txt st =
     (Inr \<lparr>id_comment = comment_seq st, reportId = rid, content = txt\<rparr>,
      query_update_expiration ts rid
        (snd (query_insert_comment rid txt (sent (SelectReport rid) st))))"
  using assms by (simp add: createReportComment_cases query_insert_comment_fst sent_simps)


lemma query_update_expiration_simps:
  "reports (query_update_expiration ts rid st) =
     map (\<lambda>r. if id_report r = rid then r\<lparr>expirationDate := ts + one_day\<rparr> else r) (reports st)"
  "comments (query_update_expiration ts rid st) = comments st"
  "issued (query_update_expiration ts rid st) = issued st @ [UpdateExpirationDate rid]"
  "report_seq (query_update_expiration ts rid st) = report_seq st"
  "comment_seq (query_update_expiration ts rid st) = comment_seq st"
  by (simp_all add: query_update_expiration_def sent_simps)



lemma half_second_row:
  "fst (getReport 1 half_second) =
     Some \<lparr>id_report = 1, title = ''Leak'', location = ''5th Ave'', description = ''Gas smell'',
           password = ''p1'', isOpen = True, expirationDate = 7500\<rparr>"
  by (simp add: getReport_fst half_second_def)


text \<open>
  C8. When the three checks of the function pass (the report is found, it is open, and
  its expiration date cut down to its whole second does not lie before the current time),
  createReportComment appends one comment row with the given report id and content and
  returns that row as stored; the statement after the insert sets the expiration date of
  the report to the database's current time plus one day, whatever it was before, and
  changes no other report.
\<close>

theorem createReportComment_success:
  assumes "fst (getReport rid st) = Some r" and "isOpen r"
    and "\<not> Date_parse (expirationDate r) < now"
  shows "fst (createReportComment now ts rid txt st) =
           Inr \<lparr>id_comment = comment_seq st, reportId = rid, content = txt\<rparr> \<and>
         comments (snd (createReportComment now ts rid txt st)) =
           comments st @ [\<lparr>id_comment = comment_seq st, reportId = rid, content = txt\<rparr>] \<and>
         reports (snd (createReportComment now ts rid txt st)) =
           map (\<lambda>x. if id_report x = rid then x\<lparr>expirationDate := ts + one_day\<rparr> else x)
             (reports st) \<and>
         issued (snd (createReportComment now ts rid txt st)) =
           issued st @ [SelectReport rid, InsertComment rid txt, UpdateExpirationDate rid] \<and>
         fst (getReport rid (snd (createReportComment now ts rid txt st))) =
           Some (r\<lparr>expirationDate := ts + one_day\<rparr>)"
proof -
  let ?st' = "query_update_expiration ts rid
        (snd (query_insert_comment rid txt (sent (SelectReport rid) st)))"
  let ?f = "\<lambda>x. if id_report x = rid then x\<lparr>expirationDate := ts + one_day\<rparr> else x"
  have eq: "createReportComment now ts rid txt st =
     (Inr \<lparr>id_comment = comment_seq st, reportId = rid, content = txt\<rparr>, ?st')"
    using assms by (rule createReportComment_accepted)
  have rows: "reports ?st' = map ?f (reports st) @ []"
    by (simp add: query_update_expiration_simps query_insert_comment_snd sent_simps)
  have ids: "id_report (?f x) = id_report x" for x
    by simp
  have "fst (getReport rid ?st') = Some (?f r)"
    using rows ids assms(1) by (rule getReport_mapped)
  moreover have "id_report r = rid"
    using assms(1) by (simp add: getReport_Some_row)
  ultimately have row: "fst (getReport rid ?st') = Some (r\<lparr>expirationDate := ts + one_day\<rparr>)"
    by simp
  show ?thesis
    unfolding eq using row rows
    by (simp add: query_update_expiration_simps query_insert_comment_snd sent_simps)
qed

theorem createReportComment_success_witness:
  "fst (createReportComment 7000 7300 1 ''confirmed'' half_second) =
     Inr \<lparr>id_comment = 1, reportId = 1, content = ''confirmed''\<rparr> \<and>
   map_option expirationDate
     (fst (getReport 1 (snd (createReportComment 7000 7300 1 ''confirmed'' half_second)))) =
     Some 86407300 \<and>
   comments (snd (createReportComment 7000 7300 1 ''confirmed'' half_second)) =
     [\<lparr>id_comment = 1, reportId = 1, content = ''confirmed''\<rparr>] \<and>
   fst (createReportComment 6000 6001 3 ''confirmed'' board) =
     Inr \<lparr>id_comment = 4, reportId = 3, content = ''confirmed''\<rparr> \<and>
   map_option expirationDate
     (fst (getReport 3 (snd (createReportComment 6000 6001 3 ''confirmed'' board)))) =
     Some 86406001"
proof -
  let ?r = "\<lparr>id_report = 1, title = ''Leak'', location = ''5th Ave'', description = ''Gas smell'',
             password = ''p1'', isOpen = True, expirationDate = 7500\<rparr>"
  let ?r3 = "\<lparr>id_report = 3, title = ''Hum'', location = ''Taos'', description = ''Low noise'',
             password = ''p3'', isOpen = True, expirationDate = 7000\<rparr>"
  have row: "fst (getReport 1 half_second) = Some ?r"
    by (rule half_second_row)
  have op: "isOpen ?r" and le: "\<not> Date_parse (expirationDate ?r) < 7000"
    by (simp_all add: Date_parse_def)
  have row3: "fst (getReport 3 board) = Some ?r3"
    by (rule board_rows)
  have op3: "isOpen ?r3" and le3: "\<not> Date_parse (expirationDate ?r3) < 6000"
    by (simp_all add: Date_parse_def)
  have seq: "comment_seq half_second = 1" and n: "comments half_second = []"
    and seq3: "comment_seq board = 4"
    by (simp_all add: half_second_def board_def)
  show ?thesis
    using createReportComment_success [OF row op le, of 7300 "''confirmed''"]
      createReportComment_success [OF row3 op3 le3, of 6001 "''confirmed''"]
    by (simp add: seq n seq3 one_day_def)
qed

section \<open>Properties of sequences of requests\<close>

lemma getReport_same_reports:
  "reports st' = reports st \<Longrightarrow> fst (getReport rid st') = fst (getReport rid st)"
  by (simp add: getReport_fst)

lemma getOpenReports_reports: "reports (snd (getOpenReports now st)) = reports st"
  by (simp add: getOpenReports_def query_open_reports_def query_comments_in_def sent_def
      Let_def split: sum.splits)

lemma createReport_reports:
  "reports (snd (createReport ts t l d p st)) =
     reports st @ [\<lparr>id_report = report_seq st, title = t, location = l, description = d,
                    password = p, isOpen = True, expirationDate = ts + one_day\<rparr>]"
  by (simp add: createReport_def query_insert_report_def sent_def Let_def)

lemma closeReport_reports:
  "reports (snd (closeReport (\<lambda>s. s) rid pw st)) = reports st \<or>
   reports (snd (closeReport (\<lambda>s. s) rid pw st)) =
     map (\<lambda>r. if id_report r = rid then r\<lparr>isOpen := False\<rparr> else r) (reports st)"
  by (simp add: closeReport_cases query_close_reports sent_simps split: option.splits)

lemma createReportComment_reports:
  "reports (snd (createReportComment now ts rid txt st)) = reports st \<or>
   (\<exists>r. fst (getReport rid st) = Some r \<and> isOpen r \<and> now \<le> expirationDate r) \<and>
   reports (snd (createReportComment now ts rid txt st)) =
     map (\<lambda>r. if id_report r = rid then r\<lparr>expirationDate := ts + one_day\<rparr> else r) (reports st)"
proof (cases "fst (getReport rid st)")
  case None
  then show ?thesis
    by (simp add: createReportComment_cases sent_simps)
next
  case (Some r)
  show ?thesis
  proof (cases "isOpen r \<and> \<not> Date_parse (expirationDate r) < now")
    case True
    then have "now \<le> expirationDate r"
      using Date_parse_le [of "expirationDate r"] by linarith
    then show ?thesis
      using Some True
      by (simp add: createReportComment_cases query_update_expiration_simps
          query_insert_comment_snd sent_simps)
  next
    case False
    then show ?thesis
      using Some by (auto simp: createReportComment_cases sent_simps)
  qed
qed

text \<open>What one request can do to the row that \<open>getReport\<close> finds.\<close>

lemma perform_getReport:
  assumes found: "fst (getReport rid st) = Some r"
  shows "fst (getReport rid (perform ts req st)) = Some r \<or>
         fst (getReport rid (perform ts req st)) = Some (r\<lparr>isOpen := False\<rparr>) \<or>
         (\<exists>now txt. req = CreateReportComment now rid txt \<and> isOpen r \<and> now \<le> expirationDate r \<and>
            fst (getReport rid (perform ts req st)) = Some (r\<lparr>expirationDate := ts + one_day\<rparr>))"
proof (cases req)
  case (GetOpenReports now)
  then show ?thesis
    using found getReport_same_reports [OF getOpenReports_reports, of rid now st] by simp
next
  case (CreateReport t l d p)
  have rows: "reports (snd (createReport ts t l d p st)) =
      map (\<lambda>x. x) (reports st) @
        [\<lparr>id_report = report_seq st, title = t, location = l, description = d,
          password = p, isOpen = True, expirationDate = ts + one_day\<rparr>]"
    by (simp add: createReport_reports)
  have "fst (getReport rid (snd (createReport ts t l d p st))) = Some r"
    using rows _ found by (rule getReport_mapped) simp
  then show ?thesis
    using CreateReport by simp
next
  case (CloseReport rid' pw)
  let ?f = "\<lambda>r. if id_report r = rid' then r\<lparr>isOpen := False\<rparr> else r"
  let ?st' = "snd (closeReport (\<lambda>s. s) rid' pw st)"
  consider "reports ?st' = reports st" | "reports ?st' = map ?f (reports st) @ []"
    using closeReport_reports [of rid' pw st] by auto
  then show ?thesis
  proof cases
    case 1
    then show ?thesis
      using found CloseReport getReport_same_reports [of ?st' st rid] by simp
  next
    case 2
    have ids: "id_report (?f x) = id_report x" for x
      by simp
    have "fst (getReport rid ?st') = Some (?f r)"
      using 2 ids found by (rule getReport_mapped)
    then show ?thesis
      using CloseReport by (cases "id_report r = rid'") simp_all
  qed
next
  case (CreateReportComment now rid' body)
  let ?f = "\<lambda>r. if id_report r = rid' then r\<lparr>expirationDate := ts + one_day\<rparr> else r"
  let ?st' = "snd (createReportComment now ts rid' body st)"
  consider "reports ?st' = reports st"
    | r' where "fst (getReport rid' st) = Some r'" "isOpen r'" "now \<le> expirationDate r'"
        "reports ?st' = map ?f (reports st) @ []"
    using createReportComment_reports [of now ts rid' body st] by auto
  then show ?thesis
  proof cases
    case 1
    then show ?thesis
      using found CreateReportComment getReport_same_reports [of ?st' st rid] by simp
  next
    case 2
    have ids: "id_report (?f x) = id_report x" for x
      by simp
    have after: "fst (getReport rid ?st') = Some (?f r)"
      using "2"(4) ids found by (rule getReport_mapped)
    have idr: "id_report r = rid"
      using found by (simp add: getReport_Some_row)
    show ?thesis
    proof (cases "rid' = rid")
      case True
      then have "r' = r"
        using "2"(1) found by simp
      then show ?thesis
        using True "2"(2,3) after idr CreateReportComment by simp
    next
      case False
      then show ?thesis
        using after idr CreateReportComment by simp
    qed
  qed
qed

lemma run_snoc: "run (es @ [(ts, req)]) st = perform ts req (run es st)"
  by (simp add: run_def)

lemma run_Cons: "run ((ts, req) # es) st = run es (perform ts req st)"
  by (simp add: run_def)

lemma run_Nil: "run [] st = st"
  by (simp add: run_def)

text \<open>A closed report stays closed, whatever requests follow.\<close>

lemma run_stays_closed:
  "fst (getReport rid st) = Some r \<Longrightarrow> \<not> isOpen r \<Longrightarrow>
   \<exists>r'. fst (getReport rid (run es st)) = Some r' \<and> \<not> isOpen r'"
proof (induction es arbitrary: st r)
  case Nil
  then show ?case by (simp add: run_Nil)
next
  case (Cons e es)
  obtain ts req where e: "e = (ts, req)"
    by (cases e)
  from perform_getReport [OF Cons.prems(1), of ts req] Cons.prems(2)
  obtain r1 where "fst (getReport rid (perform ts req st)) = Some r1" and "\<not> isOpen r1"
    by auto
  then have "\<exists>r'. fst (getReport rid (run es (perform ts req st))) = Some r' \<and> \<not> isOpen r'"
    by (rule Cons.IH)
  then show ?case
    by (simp add: e run_Cons)
qed

text \<open>Every expiration date is at most one day after the database's latest clock value.\<close>

lemma perform_expiration_bound:
  assumes bound: "\<forall>r \<in> set (reports st). expirationDate r \<le> t + one_day" and le: "t \<le> ts"
  shows "\<forall>r \<in> set (reports (perform ts req st)). expirationDate r \<le> ts + one_day"
proof -
  have old: "\<forall>r \<in> set (reports st). expirationDate r \<le> ts + one_day"
    using bound le by fastforce
  have mapped: "\<forall>r \<in> set (map f (reports st)). expirationDate r \<le> ts + one_day"
    if "\<And>x. expirationDate (f x) = expirationDate x \<or> expirationDate (f x) = ts + one_day"
    for f :: "report \<Rightarrow> report"
  proof
    fix r
    assume "r \<in> set (map f (reports st))"
    then obtain x where x: "x \<in> set (reports st)" and r: "r = f x"
      unfolding set_map by (rule imageE)
    from x old have "expirationDate x \<le> ts + one_day" by simp
    then show "expirationDate r \<le> ts + one_day"
      using that [of x] r by auto
  qed
  show ?thesis
  proof (cases req)
    case (GetOpenReports now)
    then show ?thesis using old by (simp add: getOpenReports_reports)
  next
    case (CreateReport t l d p)
    then show ?thesis using old by (simp add: createReport_reports)
  next
    case (CloseReport rid pw)
    have "\<forall>r \<in> set (map (\<lambda>r. if id_report r = rid then r\<lparr>isOpen := False\<rparr> else r) (reports st)).
        expirationDate r \<le> ts + one_day"
      by (rule mapped) simp
    then show ?thesis
      using old CloseReport closeReport_reports [of rid pw st] by (elim disjE) simp_all
  next
    case (CreateReportComment now rid body)
    have "\<forall>r \<in> set (map (\<lambda>r. if id_report r = rid then r\<lparr>expirationDate := ts + one_day\<rparr> else r)
            (reports st)). expirationDate r \<le> ts + one_day"
      by (rule mapped) simp
    then show ?thesis
      using old CreateReportComment createReportComment_reports [of now ts rid body st]
      by (elim disjE conjE) simp_all
  qed
qed

lemma chronological_snoc:
  "chronological (es @ [(ts, req)]) = (chronological es \<and> (\<forall>t \<in> fst ` set es. t \<le> ts))"
  by (auto simp: chronological_def sorted_append)

lemma run_expiration_bound:
  "chronological es \<Longrightarrow> \<forall>t \<in> fst ` set es. t \<le> ts \<Longrightarrow>
   \<forall>r \<in> set (reports (run es empty_client)). expirationDate r \<le> ts + one_day"
proof (induction es arbitrary: ts rule: rev_induct)
  case Nil
  then show ?case by (simp add: run_Nil empty_client_def)
next
  case (snoc e es)
  obtain t req where e: "e = (t, req)"
    by (cases e)
  have chron: "chronological es" and before: "\<forall>u \<in> fst ` set es. u \<le> t"
    using snoc.prems(1) by (simp_all add: e chronological_snoc)
  have "\<forall>r \<in> set (reports (run es empty_client)). expirationDate r \<le> t + one_day"
    using chron before by (rule snoc.IH)
  then have "\<forall>r \<in> set (reports (perform t req (run es empty_client))). expirationDate r \<le> t + one_day"
    by (rule perform_expiration_bound) simp
  moreover have "t \<le> ts"
    using snoc.prems(2) by (simp add: e)
  ultimately show ?case
    by (fastforce simp: e run_snoc)
qed

text \<open>The ids of the reports are unique in every database that the layer has filled:
  each one is below the next value of the sequence.\<close>

lemma perform_ids:
  "(map id_report (reports (perform ts req st)) = map id_report (reports st) \<and>
    report_seq (perform ts req st) = report_seq st) \<or>
   (map id_report (reports (perform ts req st)) = map id_report (reports st) @ [report_seq st] \<and>
    report_seq (perform ts req st) = report_seq st + 1)"
proof (cases req)
  case (GetOpenReports now)
  then show ?thesis
    by (simp add: getOpenReports_def query_open_reports_def query_comments_in_def sent_def
        Let_def split: sum.splits)
next
  case (CreateReport t l d p)
  then show ?thesis
    by (simp add: createReport_def query_insert_report_def sent_def Let_def)
next
  case (CloseReport rid pw)
  have "map id_report (map (\<lambda>r. if id_report r = rid then r\<lparr>isOpen := False\<rparr> else r) xs) =
      map id_report xs" for xs
    by (induction xs) simp_all
  then show ?thesis
    using CloseReport
    by (simp add: closeReport_cases query_close_def sent_def split: option.splits)
next
  case (CreateReportComment now rid body)
  have "map id_report
      (map (\<lambda>r. if id_report r = rid then r\<lparr>expirationDate := ts + one_day\<rparr> else r) xs) =
      map id_report xs" for xs
    by (induction xs) simp_all
  then show ?thesis
    using CreateReportComment
    by (simp add: createReportComment_cases query_update_expiration_def
        query_insert_comment_def sent_def Let_def split: option.splits)
qed

lemma run_ids:
  "distinct (map id_report (reports (run es empty_client))) \<and>
   (\<forall>i \<in> set (map id_report (reports (run es empty_client))).
      i < report_seq (run es empty_client))"
proof (induction es rule: rev_induct)
  case Nil
  then show ?case by (simp add: run_Nil empty_client_def)
next
  case (snoc e es)
  obtain ts req where e: "e = (ts, req)"
    by (cases e)
  let ?st = "run es empty_client"
  have d: "distinct (map id_report (reports ?st))"
    and below: "\<forall>i \<in> set (map id_report (reports ?st)). i < report_seq ?st"
    using snoc.IH by simp_all
  from below have fresh: "report_seq ?st \<notin> set (map id_report (reports ?st))"
    by auto
  show ?case
    using perform_ids [of ts req ?st]
  proof (elim disjE conjE)
    assume "map id_report (reports (perform ts req ?st)) = map id_report (reports ?st)"
      and "report_seq (perform ts req ?st) = report_seq ?st"
    then show ?thesis
      using d below by (simp add: e run_snoc)
  next
    assume "map id_report (reports (perform ts req ?st)) =
        map id_report (reports ?st) @ [report_seq ?st]"
      and "report_seq (perform ts req ?st) = report_seq ?st + 1"
    then show ?thesis
      using d below fresh by (simp add: e run_snoc) fastforce
  qed
qed

text \<open>
  C9. Take any sequence of requests served one after the other from the empty database,
  the database's clock never running backwards, and any report that exists after it. The
  next request leaves the report in place with an expiration date that is not earlier
  than before: the date is unchanged unless the request is a createReportComment on that
  report which passes its checks (the report open, the current time not past the
  expiration date), and then it becomes the database's current time plus one day.
\<close>

theorem expirationDate_never_decreases:
  assumes "chronological (es @ [(ts, req)])"
    and "fst (getReport rid (run es empty_client)) = Some r"
  shows "\<exists>r'. fst (getReport rid (run (es @ [(ts, req)]) empty_client)) = Some r' \<and>
          expirationDate r \<le> expirationDate r' \<and>
          (expirationDate r' = expirationDate r \<or>
           (\<exists>now txt. req = CreateReportComment now rid txt \<and> isOpen r \<and>
              now \<le> expirationDate r \<and> expirationDate r' = ts + one_day))"
proof -
  let ?st = "run es empty_client"
  have chron: "chronological es" and before: "\<forall>t \<in> fst ` set es. t \<le> ts"
    using assms(1) by (simp_all add: chronological_snoc)
  have "\<forall>x \<in> set (reports ?st). expirationDate x \<le> ts + one_day"
    using chron before by (rule run_expiration_bound)
  moreover have "r \<in> set (reports ?st)"
    using assms(2) by (simp add: getReport_Some_row)
  ultimately have bound: "expirationDate r \<le> ts + one_day"
    by simp
  from perform_getReport [OF assms(2), of ts req]
  consider "fst (getReport rid (perform ts req ?st)) = Some r"
    | "fst (getReport rid (perform ts req ?st)) = Some (r\<lparr>isOpen := False\<rparr>)"
    | now' body where "req = CreateReportComment now' rid body" "isOpen r"
        "now' \<le> expirationDate r"
        "fst (getReport rid (perform ts req ?st)) = Some (r\<lparr>expirationDate := ts + one_day\<rparr>)"
    by blast
  then show ?thesis
  proof cases
    case 1
    then show ?thesis by (simp add: run_snoc)
  next
    case 2
    then show ?thesis by (simp add: run_snoc)
  next
    case 3
    then show ?thesis using bound by (simp add: run_snoc)
  qed
qed


theorem expirationDate_never_decreases_witness:
  "chronological [(1000, CreateReport ''Leak'' ''5th Ave'' ''Gas smell'' ''p1''),
                  (2000, CreateReportComment 1500 1 ''confirmed'')] \<and>
   map_option expirationDate
     (fst (getReport 1 (run [(1000, CreateReport ''Leak'' ''5th Ave'' ''Gas smell'' ''p1'')]
        empty_client))) = Some (1000 + one_day) \<and>
   map_option expirationDate
     (fst (getReport 1 (run [(1000, CreateReport ''Leak'' ''5th Ave'' ''Gas smell'' ''p1''),
                             (2000, CreateReportComment 1500 1 ''confirmed'')]
        empty_client))) = Some (2000 + one_day)"
proof -
  let ?e1 = "(1000 :: time, CreateReport ''Leak'' ''5th Ave'' ''Gas smell'' ''p1'')"
  let ?r = "\<lparr>id_report = 1, title = ''Leak'', location = ''5th Ave'', description = ''Gas smell'',
             password = ''p1'', isOpen = True, expirationDate = 1000 + one_day\<rparr>"
  have st: "reports (run [?e1] empty_client) = [?r]"
    by (simp add: run_def createReport_reports empty_client_def)
  have found: "fst (getReport 1 (run [?e1] empty_client)) = Some ?r"
    by (simp add: getReport_fst st)
  have chron: "chronological ([?e1] @ [(2000, CreateReportComment 1500 1 ''confirmed'')])"
    by (simp add: chronological_def)
  have after: "map_option expirationDate
      (fst (getReport 1 (run [?e1, (2000, CreateReportComment 1500 1 ''confirmed'')]
         empty_client))) = Some (2000 + one_day)"
    by (simp add: run_def createReport_def query_insert_report_def createReportComment_def
        getReport_def query_report_def query_insert_comment_def query_update_expiration_def
        sent_def empty_client_def Let_def one_day_def Date_parse_def)
  show ?thesis
    using expirationDate_never_decreases [OF chron found] chron found after
    by simp
qed

section \<open>Closing a report, one request after the other\<close>

text \<open>
  C10. With nothing running between the statements of a call, closeReport never ends with
  the error \<^verbatim>\<open>Report not updated\<close>: when the checks have passed, the update,
  which selects by id alone, matches at least the row that was read, so a call on an
  existing open report with the stored password succeeds. The update matches exactly one
  row when the ids are unique, as they are in every database filled through the layer.
\<close>

theorem closeReport_sequential:
  "fst (closeReport (\<lambda>s. s) rid pw st) \<noteq> Inl (Error ''Report not updated'') \<and>
   (\<forall>r. fst (getReport rid st) = Some r \<and> password r = pw \<and> isOpen r \<longrightarrow>
      fst (closeReport (\<lambda>s. s) rid pw st) =
        Inr [(''message'', Str ''Report successfully closed!'')] \<and>
      0 < fst (query_close rid (snd (getReport rid st))) \<and>
      (distinct (map id_report (reports st)) \<longrightarrow>
         fst (query_close rid (snd (getReport rid st))) = 1)) \<and>
   (\<forall>es r. fst (getReport rid (run es empty_client)) = Some r \<longrightarrow>
      fst (query_close rid (snd (getReport rid (run es empty_client)))) = 1)"
proof (intro conjI allI impI)
  show "fst (closeReport (\<lambda>s. s) rid pw st) \<noteq> Inl (Error ''Report not updated'')"
  proof (cases "fst (getReport rid st)")
    case None
    then show ?thesis by (simp add: closeReport_absent)
  next
    case (Some r)
    then show ?thesis
      using rowCount_found [OF Some, of "SelectReport rid"]
      by (simp add: closeReport_cases)
  qed
next
  fix r
  assume a: "fst (getReport rid st) = Some r \<and> password r = pw \<and> isOpen r"
  then show "fst (closeReport (\<lambda>s. s) rid pw st) =
      Inr [(''message'', Str ''Report successfully closed!'')]"
    by (simp add: closeReport_alone)
  show "0 < fst (query_close rid (snd (getReport rid st)))"
    using a rowCount_found [of rid st r "SelectReport rid"] by (simp add: getReport_snd)
  assume d: "distinct (map id_report (reports st))"
  have "rid \<in> id_report ` set (reports st)"
    using a getReport_None_iff [of rid st] by simp
  then have "length (filter (\<lambda>y. id_report y = rid) (reports st)) = 1"
    using d by (rule count_distinct_id [rotated])
  then show "fst (query_close rid (snd (getReport rid st))) = 1"
    by (simp add: query_close_rowCount getReport_snd sent_simps)
next
  fix es r
  let ?st = "run es empty_client"
  assume "fst (getReport rid ?st) = Some r"
  then have "rid \<in> id_report ` set (reports ?st)"
    using getReport_None_iff [of rid ?st] by simp
  moreover have "distinct (map id_report (reports ?st))"
    using run_ids [of es] by simp
  ultimately have "length (filter (\<lambda>y. id_report y = rid) (reports ?st)) = 1"
    by (rule count_distinct_id [rotated])
  then show "fst (query_close rid (snd (getReport rid ?st))) = 1"
    by (simp add: query_close_rowCount getReport_snd sent_simps)
qed

theorem closeReport_sequential_witness:
  "fst (closeReport (\<lambda>s. s) 3 ''p3'' board) =
     Inr [(''message'', Str ''Report successfully closed!'')] \<and>
   fst (query_close 3 (snd (getReport 3 board))) = 1 \<and>
   fst (query_close 1
          (snd (getReport 1
                  (run [(1000, CreateReport ''Leak'' ''5th Ave'' ''Gas smell'' ''p1'')]
                     empty_client)))) = 1"
proof -
  have d: "distinct (map id_report (reports board))"
    by (simp add: board_def)
  have st: "reports (run [(1000, CreateReport ''Leak'' ''5th Ave'' ''Gas smell'' ''p1'')]
                empty_client) =
      [\<lparr>id_report = 1, title = ''Leak'', location = ''5th Ave'', description = ''Gas smell'',
        password = ''p1'', isOpen = True, expirationDate = 1000 + one_day\<rparr>]"
    by (simp add: run_def createReport_reports empty_client_def)
  have found: "fst (getReport 1
      (run [(1000, CreateReport ''Leak'' ''5th Ave'' ''Gas smell'' ''p1'')] empty_client)) =
      Some \<lparr>id_report = 1, title = ''Leak'', location = ''5th Ave'', description = ''Gas smell'',
        password = ''p1'', isOpen = True, expirationDate = 1000 + one_day\<rparr>"
    by (simp add: getReport_fst st)
  show ?thesis
    using closeReport_sequential [of 3 "''p3''" board] d found
      closeReport_sequential [of 1 "''p1''" board]
    by (simp add: board_rows)
qed

text \<open>
  C6. For an open report, two calls of closeReport in a row with the stored password:
  the first one succeeds, the second one fails with
  \<^verbatim>\<open>This report has already been closed\<close>, and the report reads as closed after
  each of them. No request reopens it: it reads as closed after any sequence of requests
  that follows.
\<close>

theorem closeReport_twice:
  assumes "fst (getReport rid st) = Some r" and "password r = pw" and "isOpen r"
  shows "fst (closeReport (\<lambda>s. s) rid pw st) =
           Inr [(''message'', Str ''Report successfully closed!'')] \<and>
         fst (getReport rid (snd (closeReport (\<lambda>s. s) rid pw st))) = Some (r\<lparr>isOpen := False\<rparr>) \<and>
         fst (closeReport (\<lambda>s. s) rid pw (snd (closeReport (\<lambda>s. s) rid pw st))) =
           Inl (Error ''This report has already been closed'') \<and>
         fst (getReport rid
                (snd (closeReport (\<lambda>s. s) rid pw (snd (closeReport (\<lambda>s. s) rid pw st))))) =
           Some (r\<lparr>isOpen := False\<rparr>) \<and>
         (\<forall>es. \<exists>r'. fst (getReport rid (run es (snd (closeReport (\<lambda>s. s) rid pw st)))) = Some r' \<and>
                  \<not> isOpen r')"
proof -
  let ?st1 = "snd (query_close rid (sent (SelectReport rid) st))"
  have first: "closeReport (\<lambda>s. s) rid pw st =
      (Inr [(''message'', Str ''Report successfully closed!'')], ?st1)"
    using assms by (rule closeReport_alone)
  have row1: "fst (getReport rid ?st1) = Some (r\<lparr>isOpen := False\<rparr>)"
    using assms(1) by (rule getReport_closed)
  have second: "closeReport (\<lambda>s. s) rid pw ?st1 =
      (Inl (Error ''This report has already been closed''), sent (SelectReport rid) ?st1)"
    using row1 assms(2) by (simp add: closeReport_closed)
  have row2: "fst (getReport rid (sent (SelectReport rid) ?st1)) = Some (r\<lparr>isOpen := False\<rparr>)"
    using row1 by (simp add: getReport_fst sent_simps)
  have later: "\<exists>r'. fst (getReport rid (run es ?st1)) = Some r' \<and> \<not> isOpen r'" for es
    using row1 by (rule run_stays_closed) simp
  show ?thesis
    using later by (simp add: first second row1 row2)
qed

theorem closeReport_twice_witness:
  "fst (closeReport (\<lambda>s. s) 1 ''p1'' board) =
     Inr [(''message'', Str ''Report successfully closed!'')] \<and>
   fst (closeReport (\<lambda>s. s) 1 ''p1'' (snd (closeReport (\<lambda>s. s) 1 ''p1'' board))) =
     Inl (Error ''This report has already been closed'')"
proof -
  let ?r = "\<lparr>id_report = 1, title = ''Leak'', location = ''5th Ave'', description = ''Gas smell'',
             password = ''p1'', isOpen = True, expirationDate = 5000\<rparr>"
  have row: "fst (getReport 1 board) = Some ?r"
    by (rule board_rows)
  have pw: "password ?r = ''p1''" and op: "isOpen ?r"
    by simp_all
  show ?thesis
    using closeReport_twice [OF row pw op] by simp
qed

end
